theory Spec2Isabelle
  imports Main
begin

section \<open>Errors, notifications and actions\<close>

text \<open>
  Every error the two source files raise is a constructor of one datatype. The
  JavaScript sources build \<^verbatim>\<open>new Error(message)\<close>; the constructors stand for
  the messages:
  \<^item> \<open>AlreadySuspended\<close>: 'The model is already suspended.'
  \<^item> \<open>SuspendTimeout t\<close>: 'Model suspend timeout (t ms)'
  \<^item> \<open>ReducerAlreadyDefined k\<close>: 'Reducer for [k] already defined.'
  \<^item> \<open>SideEffectAlreadyDefined k\<close>: 'Side-effect producer for [k] already defined.'
  \<^item> \<open>NestedSideEffect\<close>: 'Nested side-effect not allowed'
  \<^item> \<open>Thrown x\<close>: any value raised by user code (a wake predicate) or carried by
    an action in its \<open>error\<close> field.
\<close>

datatype jserror =
    AlreadySuspended
  | SuspendTimeout int
  | ReducerAlreadyDefined string
  | SideEffectAlreadyDefined string
  | NestedSideEffect
  | Thrown string

text \<open>What an observer of an RxJS stream can be sent: next, error, complete.\<close>

datatype 'a notification = NextN 'a | ErrorN jserror | CompleteN

text \<open>
  Modelled from the spec: the declaration of \<open>Action\<close> that the model class imports
  from '../action/common' is not among the sources. The spec gives an action a kind,
  an optional payload and the two flags; the model class reads \<open>action.name\<close> (the
  dispatch key) and \<open>action.error\<close> (tested for truthiness and handed to the
  stream's \<open>error\<close>). An absent optional field is \<open>None\<close>.
\<close>

record 'p Action =
  name :: string
  payload :: "'p option"
  error :: "jserror option"
  isSideEffect :: "bool option"

section \<open>The RxJS pipeline of a suspension\<close>

text \<open>
  \<open>suspendWithTimeout\<close> returns
  \<^verbatim>\<open>wakeEvents$.pipe(takeUntil(timer(t).pipe(concatMap(throwError))) or map(id),
     reduce((acc, a) => acc.concat(a), []), concatMap(actions => of(...actions)))\<close>.
  One subscription to that observable is a \<open>Subscriber\<close>:
  \<^item> \<open>timer\<close>: \<open>Some t\<close> while the \<open>takeUntil\<close> notifier \<open>timer(t)\<close> is pending
    (only when \<open>t > 0\<close>), \<open>None\<close> otherwise;
  \<^item> \<open>buffer\<close>: the accumulator of \<open>reduce\<close>;
  \<^item> \<open>closed\<close>: the chain has ended (completed, failed or unsubscribed);
  \<^item> \<open>received\<close>: what reached the subscriber's observer, in order.
\<close>

record 'p Subscriber =
  timer :: "int option"
  buffer :: "'p Action list"
  closed :: bool
  received :: "'p Action notification list"

text \<open>The source sends \<open>next\<close>: \<open>reduce\<close> appends to its accumulator, nothing is passed on.\<close>

definition sub_next :: "'p Action \<Rightarrow> 'p Subscriber \<Rightarrow> 'p Subscriber" where
  "sub_next a p = (if closed p then p else p\<lparr>buffer := buffer p @ [a]\<rparr>)"

text \<open>An error (of the source or of the notifier) passes every operator unchanged;
  the accumulator is dropped.\<close>

definition sub_error :: "jserror \<Rightarrow> 'p Subscriber \<Rightarrow> 'p Subscriber" where
  "sub_error e p =
     (if closed p then p
      else p\<lparr>timer := None, closed := True, received := received p @ [ErrorN e]\<rparr>)"

text \<open>The source completes: \<open>reduce\<close> emits its accumulator, \<open>concatMap\<close> replays it
  element by element and completes.\<close>

definition sub_complete :: "'p Subscriber \<Rightarrow> 'p Subscriber" where
  "sub_complete p =
     (if closed p then p
      else p\<lparr>timer := None, closed := True,
             received := received p @ map NextN (buffer p) @ [CompleteN]\<rparr>)"

text \<open>The notifier \<open>timer(t)\<close> fires: its value is mapped to \<open>throwError\<close>, so the
  notifier fails and \<open>takeUntil\<close> passes the failure downstream.\<close>

definition sub_timeout :: "'p Subscriber \<Rightarrow> 'p Subscriber" where
  "sub_timeout p =
     (case timer p of
        None \<Rightarrow> p
      | Some t \<Rightarrow> sub_error (SuspendTimeout t) p)"

text \<open>
  An RxJS \<open>Subject\<close>: \<open>isStopped\<close> and \<open>thrownError\<close> as in the library; \<open>emitted\<close> is
  the trace of notifications the subject has sent so far; \<open>observers\<close> holds the
  subscriptions made through the pipeline above (a finished one stays in the list, closed,
  so that what it received can be read). A stopped subject sends nothing more; the model
  class calls a subject only while \<open>wakeFn\<close> is stored, and then the subject has
  not been stopped (the lemmas on \<open>live\<close> below).
\<close>

record 'p Subject =
  isStopped :: bool
  thrownError :: "jserror option"
  emitted :: "'p Action notification list"
  observers :: "'p Subscriber list"

definition new_Subject :: "'p Subject" where
  "new_Subject = \<lparr>isStopped = False, thrownError = None, emitted = [], observers = []\<rparr>"

definition subject_next :: "'p Action \<Rightarrow> 'p Subject \<Rightarrow> 'p Subject" where
  "subject_next a s =
     (if isStopped s then s
      else s\<lparr>emitted := emitted s @ [NextN a], observers := map (sub_next a) (observers s)\<rparr>)"

definition subject_error :: "jserror \<Rightarrow> 'p Subject \<Rightarrow> 'p Subject" where
  "subject_error e s =
     (if isStopped s then s
      else s\<lparr>isStopped := True, thrownError := Some e, emitted := emitted s @ [ErrorN e],
             observers := map (sub_error e) (observers s)\<rparr>)"

definition subject_complete :: "'p Subject \<Rightarrow> 'p Subject" where
  "subject_complete s =
     (if isStopped s then s
      else s\<lparr>isStopped := True, emitted := emitted s @ [CompleteN],
             observers := map sub_complete (observers s)\<rparr>)"

text \<open>
  The observable \<open>suspendWithTimeout\<close> returns: either \<open>throwError(e)\<close>, or the
  pipeline over the subject the same call stored in \<open>wakeEvents$\<close>, with its timeout.
\<close>

datatype Observable = ThrowError jserror | Piped int

text \<open>
  The state of a new subscription right after \<open>subscribe()\<close>. \<open>throwError\<close> fails at
  once. A subject that has failed hands its error to a late subscriber, one that has
  completed completes it (then \<open>reduce\<close> emits the empty seed and nothing is replayed).
\<close>

definition new_subscriber :: "Observable \<Rightarrow> 'p Subject \<Rightarrow> 'p Subscriber" where
  "new_subscriber obs s =
     (case obs of
        ThrowError e \<Rightarrow> \<lparr>timer = None, buffer = [], closed = True, received = [ErrorN e]\<rparr>
      | Piped t \<Rightarrow>
          (case thrownError s of
             Some e \<Rightarrow> \<lparr>timer = None, buffer = [], closed = True, received = [ErrorN e]\<rparr>
           | None \<Rightarrow>
               if isStopped s
               then \<lparr>timer = None, buffer = [], closed = True, received = [CompleteN]\<rparr>
               else \<lparr>timer = (if t > 0 then Some t else None), buffer = [], closed = False,
                     received = []\<rparr>))"

section \<open>StatelessModel: the suspend/wake part\<close>

text \<open>
  The fields of \<open>StatelessModel\<close> that the operations below read or write.
  \<open>state\<close> is the current value of \<open>state$\<close> (what \<open>getState()\<close> returns).
  A wake function returns \<open>U|null\<close> or throws: \<open>Inr (Some v)\<close>, \<open>Inr None\<close>, \<open>Inl e\<close>.
  Values of type \<open>'u\<close> are compared with \<open>=\<close> where the source uses \<open>===\<close> : they stand
  for the references (or primitive values) the source compares.
  The handler tables are JavaScript objects used as dictionaries: the map holds their
  own properties.
\<close>

record ('t, 'u, 'p) StatelessModel =
  state :: 't
  wakeFn :: "('p Action \<Rightarrow> 'u \<Rightarrow> jserror + 'u option) option"
  syncData :: "'u option"
  wakeEvents :: "'p Subject"
  actionMatch :: "string \<rightharpoonup> ('t \<Rightarrow> 'p Action \<Rightarrow> 't)"
  sideEffectMatch :: "string \<rightharpoonup> ('t \<Rightarrow> 'p Action \<Rightarrow> 'p Action list)"

text \<open>
  The constructor: no wake function, no sync data, empty tables. It leaves
  \<open>wakeEvents$\<close> unassigned; the field is read only while \<open>wakeFn\<close> is a function,
  which only \<open>suspendWithTimeout\<close> makes it, after assigning a subject. The model gives
  the unassigned field a subject nobody has subscribed to.
\<close>

definition StatelessModel_new :: "'t \<Rightarrow> ('t, 'u, 'p) StatelessModel" where
  "StatelessModel_new initialState =
     \<lparr>state = initialState, wakeFn = None, syncData = None, wakeEvents = new_Subject,
      actionMatch = Map.empty, sideEffectMatch = Map.empty\<rparr>"

definition isActive :: "('t, 'u, 'p) StatelessModel \<Rightarrow> bool" where
  "isActive m = (wakeFn m = None)"

definition suspendWithTimeout ::
  "int \<Rightarrow> 'u \<Rightarrow> ('p Action \<Rightarrow> 'u \<Rightarrow> jserror + 'u option) \<Rightarrow> ('t, 'u, 'p) StatelessModel
     \<Rightarrow> Observable \<times> ('t, 'u, 'p) StatelessModel" where
  "suspendWithTimeout timeout sd wfn m =
     (case wakeFn m of
        Some _ \<Rightarrow> (ThrowError AlreadySuspended, m)
      | None \<Rightarrow>
          (Piped timeout, m\<lparr>wakeFn := Some wfn, syncData := Some sd, wakeEvents := new_Subject\<rparr>))"

definition suspend ::
  "'u \<Rightarrow> ('p Action \<Rightarrow> 'u \<Rightarrow> jserror + 'u option) \<Rightarrow> ('t, 'u, 'p) StatelessModel
     \<Rightarrow> Observable \<times> ('t, 'u, 'p) StatelessModel" where
  "suspend sd wfn m = suspendWithTimeout 0 sd wfn m"

definition wakeUp :: "'p Action \<Rightarrow> ('t, 'u, 'p) StatelessModel \<Rightarrow> ('t, 'u, 'p) StatelessModel" where
  "wakeUp action m =
     (case wakeFn m of
        None \<Rightarrow> m
      | Some f \<Rightarrow>
          (case syncData m of
             None \<Rightarrow> m
           | Some sd \<Rightarrow>
               (case f action sd of
                  Inr None \<Rightarrow>
                    (case error action of
                       Some e \<Rightarrow> m\<lparr>wakeFn := None, wakeEvents := subject_error e (wakeEvents m)\<rparr>
                     | None \<Rightarrow>
                         m\<lparr>wakeFn := None,
                           wakeEvents := subject_complete (subject_next action (wakeEvents m))\<rparr>)
                | Inr (Some ans) \<Rightarrow>
                    if ans \<noteq> sd
                    then m\<lparr>wakeEvents := subject_next action (wakeEvents m), syncData := Some ans\<rparr>
                    else m
                | Inl e \<Rightarrow> m\<lparr>wakeFn := None, wakeEvents := subject_error e (wakeEvents m)\<rparr>)))"

text \<open>
  Two things happen to the returned observable outside the class: somebody subscribes
  to it, and the timer of a subscription fires. Both act on the subject of the running
  suspension and leave every other field of the model alone. Real time is abstracted:
  a pending timer may fire at any point of a run. \<open>subscribe\<close> is for the observable
  of the suspension whose subject the model holds.
\<close>

definition subscribe :: "Observable \<Rightarrow> ('t, 'u, 'p) StatelessModel \<Rightarrow> ('t, 'u, 'p) StatelessModel" where
  "subscribe obs m =
     (case obs of
        ThrowError e \<Rightarrow> m
      | Piped t \<Rightarrow>
          m\<lparr>wakeEvents := (wakeEvents m)
              \<lparr>observers := observers (wakeEvents m) @ [new_subscriber obs (wakeEvents m)]\<rparr>\<rparr>)"

definition timer_fires :: "nat \<Rightarrow> ('t, 'u, 'p) StatelessModel \<Rightarrow> ('t, 'u, 'p) StatelessModel" where
  "timer_fires i m =
     (if i < length (observers (wakeEvents m))
      then m\<lparr>wakeEvents := (wakeEvents m)
              \<lparr>observers := (observers (wakeEvents m))
                 [i := sub_timeout (observers (wakeEvents m) ! i)]\<rparr>\<rparr>
      else m)"

text \<open>What the \<open>i\<close>-th subscriber of the running suspension has received.\<close>

definition delivered :: "nat \<Rightarrow> ('t, 'u, 'p) StatelessModel \<Rightarrow> 'p Action notification list" where
  "delivered i m = received (observers (wakeEvents m) ! i)"

text \<open>
  Subscribing to the returned observable right away, as in
  \<^verbatim>\<open>this.suspendWithTimeout(t, sd, f).subscribe(...)\<close>.
\<close>

definition start ::
  "int \<Rightarrow> 'u \<Rightarrow> ('p Action \<Rightarrow> 'u \<Rightarrow> jserror + 'u option) \<Rightarrow> ('t, 'u, 'p) StatelessModel
     \<Rightarrow> ('t, 'u, 'p) StatelessModel" where
  "start timeout sd wfn m0 =
     (case suspendWithTimeout timeout sd wfn m0 of (obs, m) \<Rightarrow> subscribe obs m)"

text \<open>
  What can happen to a model during a suspension, in any order: an action arrives and
  \<open>wakeUp\<close> is called with it, somebody subscribes to the stream, a timer fires.
\<close>

datatype 'p event = WakeUp "'p Action" | Subscribe Observable | TimerFires nat

fun step :: "'p event \<Rightarrow> ('t, 'u, 'p) StatelessModel \<Rightarrow> ('t, 'u, 'p) StatelessModel" where
  "step (WakeUp a) m = wakeUp a m"
| "step (Subscribe obs) m = subscribe obs m"
| "step (TimerFires i) m = timer_fires i m"

definition run :: "'p event list \<Rightarrow> ('t, 'u, 'p) StatelessModel \<Rightarrow> ('t, 'u, 'p) StatelessModel" where
  "run es m = foldl (\<lambda>m e. step e m) m es"

text \<open>
  The state invariant of the suspend/wake fields: while a wake function is stored, there
  is sync data and the subject of the suspension has not been stopped.
\<close>

definition live :: "('t, 'u, 'p) StatelessModel \<Rightarrow> bool" where
  "live m =
     (case wakeFn m of
        None \<Rightarrow> True
      | Some f \<Rightarrow> syncData m \<noteq> None \<and> \<not> isStopped (wakeEvents m))"

text \<open>
  The bookkeeping of a run of actions that all leave the model suspended, replayed on
  the wake predicate alone: the sync data after the run and the actions that were passed
  on (the predicate returned a new value that is not null). \<open>None\<close> when some action
  of the run ends the suspension (null, or an exception).
\<close>

fun forwarded ::
  "('p Action \<Rightarrow> 'u \<Rightarrow> jserror + 'u option) \<Rightarrow> 'u \<Rightarrow> 'p Action list
     \<Rightarrow> ('u \<times> 'p Action list) option" where
  "forwarded f sd [] = Some (sd, [])"
| "forwarded f sd (a # as) =
     (case f a sd of
        Inr (Some v) \<Rightarrow>
          if v \<noteq> sd
          then (case forwarded f v as of None \<Rightarrow> None | Some (sd', fw) \<Rightarrow> Some (sd', a # fw))
          else forwarded f sd as
      | _ \<Rightarrow> None)"

definition buffered :: "'p Action list \<Rightarrow> 'p Subscriber \<Rightarrow> 'p Subscriber" where
  "buffered fw p = (if closed p then p else p\<lparr>buffer := buffer p @ fw\<rparr>)"

text \<open>A subscriber that has been sent no action; a model that is awake or whose
  subscribers all are such.\<close>

definition no_next :: "'p Subscriber \<Rightarrow> bool" where
  "no_next p = (\<forall>x. NextN x \<notin> set (received p))"

definition quiet :: "('t, 'u, 'p) StatelessModel \<Rightarrow> bool" where
  "quiet m = (isActive m \<or> list_all no_next (observers (wakeEvents m)))"

text \<open>The \<open>i\<close>-th subscription of the running suspension is \<open>p\<close> and has ended.\<close>

definition ended :: "nat \<Rightarrow> 'p Subscriber \<Rightarrow> ('t, 'u, 'p) StatelessModel \<Rightarrow> bool" where
  "ended i p m =
     (i < length (observers (wakeEvents m)) \<and> observers (wakeEvents m) ! i = p \<and> closed p)"

section \<open>StatelessModel: the handler tables\<close>

text \<open>
  \<open>actionMatch\<close> and \<open>sideEffectMatch\<close> are object literals \<^verbatim>\<open>{}\<close> indexed by the
  action name. Reading \<^verbatim>\<open>obj[k]\<close> finds an own property or, failing that, a
  property of \<open>Object.prototype\<close>; only when both are missing is the result
  \<open>undefined\<close>. \<^verbatim>\<open>delete obj[k]\<close> removes an own property only.
\<close>

definition Object_prototype :: "string list" where
  "Object_prototype =
     [''constructor'', ''hasOwnProperty'', ''isPrototypeOf'', ''propertyIsEnumerable'',
      ''toLocaleString'', ''toString'', ''valueOf'', ''__proto__'', ''__defineGetter__'',
      ''__defineSetter__'', ''__lookupGetter__'', ''__lookupSetter__'']"

datatype 'v property = Undefined | Own 'v | Inherited

definition getProp :: "(string \<rightharpoonup> 'v) \<Rightarrow> string \<Rightarrow> 'v property" where
  "getProp obj k =
     (case obj k of
        Some v \<Rightarrow> Own v
      | None \<Rightarrow> if k \<in> set Object_prototype then Inherited else Undefined)"

text \<open>
  Immer's \<open>produce(recipe)\<close> turns a recipe that edits a draft into a function from
  state to new state. A recipe is modelled by the state transformer it performs, so
  \<open>produce\<close> only wraps it.
\<close>

definition produce :: "('t \<Rightarrow> 'p Action \<Rightarrow> 't) \<Rightarrow> ('t \<Rightarrow> 'p Action \<Rightarrow> 't)" where
  "produce recipe = (\<lambda>s a. recipe s a)"

text \<open>The modifier object \<open>createHandlerModifier\<close> returns closes over the action name.\<close>

datatype IActionHandlerModifier = HandlerModifier string

definition createHandlerModifier :: "string \<Rightarrow> IActionHandlerModifier" where
  "createHandlerModifier actionName = HandlerModifier actionName"

text \<open>
  \<open>addActionHandler\<close> writes the tables and may throw after it has written: a throw
  is \<open>Inl\<close> of the error with the model as the throw leaves it, a return is \<open>Inr\<close>
  of the modifier with the new model. A \<open>null\<close> reducer and an absent side-effect
  producer are \<open>None\<close>.
\<close>

definition addActionHandler ::
  "string \<Rightarrow> ('t \<Rightarrow> 'p Action \<Rightarrow> 't) option \<Rightarrow> ('t \<Rightarrow> 'p Action \<Rightarrow> 'p Action list) option
     \<Rightarrow> ('t, 'u, 'p) StatelessModel
     \<Rightarrow> (jserror \<times> ('t, 'u, 'p) StatelessModel)
         + (IActionHandlerModifier \<times> ('t, 'u, 'p) StatelessModel)" where
  "addActionHandler actionName reducer seProducer m =
     (case
        (case reducer of
           None \<Rightarrow> Inr m
         | Some r \<Rightarrow>
             (case getProp (actionMatch m) actionName of
                Undefined \<Rightarrow> Inr (m\<lparr>actionMatch := (actionMatch m)(actionName \<mapsto> produce r)\<rparr>)
              | _ \<Rightarrow> Inl (ReducerAlreadyDefined actionName, m)))
      of
        Inl thrown \<Rightarrow> Inl thrown
      | Inr m1 \<Rightarrow>
          (case seProducer of
             None \<Rightarrow> Inr (createHandlerModifier actionName, m1)
           | Some se \<Rightarrow>
               (case getProp (sideEffectMatch m1) actionName of
                  Undefined \<Rightarrow>
                    Inr (createHandlerModifier actionName,
                         m1\<lparr>sideEffectMatch := (sideEffectMatch m1)(actionName \<mapsto> se)\<rparr>)
                | _ \<Rightarrow> Inl (SideEffectAlreadyDefined actionName, m1))))"

definition replaceActionHandler ::
  "string \<Rightarrow> ('t \<Rightarrow> 'p Action \<Rightarrow> 't) option \<Rightarrow> ('t \<Rightarrow> 'p Action \<Rightarrow> 'p Action list) option
     \<Rightarrow> ('t, 'u, 'p) StatelessModel
     \<Rightarrow> (jserror \<times> ('t, 'u, 'p) StatelessModel)
         + (IActionHandlerModifier \<times> ('t, 'u, 'p) StatelessModel)" where
  "replaceActionHandler actionName reducer seProducer m =
     addActionHandler actionName reducer seProducer
       (m\<lparr>actionMatch := (actionMatch m)(actionName := None),
          sideEffectMatch := (sideEffectMatch m)(actionName := None)\<rparr>)"

section \<open>ActionDispatcher (kombo/main.ts)\<close>

text \<open>
  The \<open>Action\<close> of kombo/main.ts, which \<open>AnyAction\<close> unites with its side-effect
  variant: it has \<open>type\<close> where the model class has \<open>name\<close>, and a boolean
  \<open>error\<close>. The field names are primed to keep them apart from the record above.
\<close>

record 'p AnyAction =
  type' :: string
  payload' :: "'p option"
  error' :: "bool option"
  isSideEffect' :: "bool option"

text \<open>The dispatcher's state is what has been pushed into \<open>inAction$\<close>, in order.\<close>

record 'p ActionDispatcher =
  inAction :: "'p AnyAction list"

definition dispatch :: "'p AnyAction \<Rightarrow> 'p ActionDispatcher \<Rightarrow> 'p ActionDispatcher" where
  "dispatch action d = d\<lparr>inAction := inAction d @ [action]\<rparr>"

text \<open>
  The helper \<open>registerReducer\<close> passes to the side-effect handler as its third
  argument, closed over the action being processed.
\<close>

definition seDispatch ::
  "'p AnyAction \<Rightarrow> 'p AnyAction \<Rightarrow> 'p ActionDispatcher \<Rightarrow> jserror + 'p ActionDispatcher" where
  "seDispatch action seAction d =
     (if isSideEffect' action = Some True then Inl NestedSideEffect
      else Inr (dispatch \<lparr>type' = type' seAction, payload' = payload' seAction,
                          error' = error' seAction, isSideEffect' = Some True\<rparr> d))"

text \<open>
  A side-effect handler is modelled by the actions it hands to the helper, in order;
  the first throw ends it.
\<close>

fun seDispatch_all ::
  "'p AnyAction \<Rightarrow> 'p AnyAction list \<Rightarrow> 'p ActionDispatcher \<Rightarrow> jserror + 'p ActionDispatcher" where
  "seDispatch_all action [] d = Inr d"
| "seDispatch_all action (seAction # rest) d =
     (case seDispatch action seAction d of
        Inl e \<Rightarrow> Inl e
      | Inr d' \<Rightarrow> seDispatch_all action rest d')"

text \<open>The accumulator function \<open>registerReducer\<close> gives to \<open>scan\<close>; the seed action
  of \<open>startWith(null)\<close> is \<open>None\<close>.\<close>

definition registerReducer_step ::
  "('t \<Rightarrow> 'p AnyAction \<Rightarrow> 't) \<Rightarrow> ('t \<Rightarrow> 'p AnyAction \<Rightarrow> 'p AnyAction list) option
     \<Rightarrow> 't \<Rightarrow> 'p AnyAction option \<Rightarrow> 'p ActionDispatcher
     \<Rightarrow> jserror + ('t \<times> 'p ActionDispatcher)" where
  "registerReducer_step reduce sideEffects st action d =
     (let newState = (case action of None \<Rightarrow> st | Some a \<Rightarrow> reduce st a) in
      case sideEffects of
        None \<Rightarrow> Inr (newState, d)
      | Some se \<Rightarrow>
          (case action of
             None \<Rightarrow> Inr (newState, d)
           | Some a \<Rightarrow>
               (case seDispatch_all a (se newState a) d of
                  Inl e \<Rightarrow> Inl e
                | Inr d' \<Rightarrow> Inr (newState, d'))))"

definition asSideEffect :: "'p AnyAction \<Rightarrow> 'p AnyAction" where
  "asSideEffect seAction =
     \<lparr>type' = type' seAction, payload' = payload' seAction, error' = error' seAction,
      isSideEffect' = Some True\<rparr>"

section \<open>Concrete models and actions\<close>

text \<open>
  A model whose state and sync data are numbers. Its wake predicate wakes on READY,
  counts every STEP in the sync data, throws on BAD and keeps the sync data it was
  given on anything else.
\<close>

definition act :: "string \<Rightarrow> unit Action" where
  "act k = \<lparr>name = k, payload = None, error = None, isSideEffect = None\<rparr>"

definition failed_act :: "string \<Rightarrow> string \<Rightarrow> unit Action" where
  "failed_act k msg = \<lparr>name = k, payload = None, error = Some (Thrown msg), isSideEffect = None\<rparr>"

definition ex_wake :: "unit Action \<Rightarrow> nat \<Rightarrow> jserror + nat option" where
  "ex_wake a n =
     (if name a = ''READY'' then Inr None
      else if name a = ''STEP'' then Inr (Some (Suc n))
      else if name a = ''BAD'' then Inl (Thrown ''broken predicate'')
      else Inr (Some n))"

definition ex_model :: "(nat, nat, unit) StatelessModel" where
  "ex_model = StatelessModel_new 0"

definition ex_started :: "(nat, nat, unit) StatelessModel" where
  "ex_started = start 50 0 ex_wake ex_model"

definition ex_reducer :: "nat \<Rightarrow> unit Action \<Rightarrow> nat" where
  "ex_reducer n a = Suc n"

definition ex_producer :: "nat \<Rightarrow> unit Action \<Rightarrow> unit Action list" where
  "ex_producer n a = [act ''DONE'']"

definition ui_action :: "string \<Rightarrow> unit AnyAction" where
  "ui_action k = \<lparr>type' = k, payload' = None, error' = None, isSideEffect' = None\<rparr>"

definition se_action :: "string \<Rightarrow> unit AnyAction" where
  "se_action k = \<lparr>type' = k, payload' = None, error' = None, isSideEffect' = Some True\<rparr>"

definition ex_dispatcher :: "unit ActionDispatcher" where
  "ex_dispatcher = \<lparr>inAction = []\<rparr>"

section \<open>The invariant of the suspend/wake fields\<close>

lemma live_new: "live (StatelessModel_new s0)"
  by (simp add: live_def StatelessModel_new_def)

lemma live_suspendWithTimeout: "live m \<Longrightarrow> live (snd (suspendWithTimeout t sd f m))"
  by (simp add: live_def suspendWithTimeout_def new_Subject_def split: option.splits)

lemma live_wakeUp: "live m \<Longrightarrow> live (wakeUp a m)"
  by (auto simp add: live_def wakeUp_def subject_next_def split: option.splits sum.splits)

lemma live_subscribe: "live m \<Longrightarrow> live (subscribe obs m)"
  by (auto simp add: live_def subscribe_def split: option.splits Observable.splits)

lemma live_timer_fires: "live m \<Longrightarrow> live (timer_fires i m)"
  by (auto simp add: live_def timer_fires_def split: option.splits)

lemma live_addActionHandler:
  "live m \<Longrightarrow> live (case addActionHandler k r se m of Inl (e, m') \<Rightarrow> m' | Inr (h, m') \<Rightarrow> m')"
  by (auto simp add: live_def addActionHandler_def split: option.splits property.splits)

lemma live_step: "live m \<Longrightarrow> live (step e m)"
  by (cases e) (simp_all add: live_wakeUp live_subscribe live_timer_fires)

lemma live_run: "live m \<Longrightarrow> live (run es m)"
  unfolding run_def by (induction es arbitrary: m) (simp_all add: live_step)

lemma live_start: "live m0 \<Longrightarrow> live (start t sd f m0)"
  by (auto simp add: start_def live_def suspendWithTimeout_def subscribe_def new_Subject_def
      split: option.splits)

lemma live_stream: "live m \<Longrightarrow> wakeFn m = Some f \<Longrightarrow> \<not> isStopped (wakeEvents m)"
  by (simp add: live_def)

section \<open>Suspending\<close>

text \<open>
  C7. On a model that is suspended (its first suspension not resolved),
  \<open>suspendWithTimeout\<close> and \<open>suspend\<close> return the observable that fails with
  'The model is already suspended.' and leave the model, so also the stored wake
  predicate and sync data, as it was; a subscriber of that observable is sent the error.
\<close>

theorem suspend_twice_fails:
  assumes "\<not> isActive m"
  shows "suspendWithTimeout t sd' f' m = (ThrowError AlreadySuspended, m)
     \<and> suspend sd' f' m = (ThrowError AlreadySuspended, m)
     \<and> wakeFn (snd (suspendWithTimeout t sd' f' m)) = wakeFn m
     \<and> syncData (snd (suspendWithTimeout t sd' f' m)) = syncData m
     \<and> received (new_subscriber (fst (suspendWithTimeout t sd' f' m)) (wakeEvents m))
         = [ErrorN AlreadySuspended]"
  using assms
  by (auto simp add: isActive_def suspendWithTimeout_def suspend_def new_subscriber_def)

text \<open>C7 at the model suspended with \<open>ex_wake\<close>: a second suspension with another
  predicate and other sync data fails and changes nothing.\<close>

theorem suspend_twice_fails_witness:
  "\<not> isActive ex_started
   \<and> fst (suspendWithTimeout 10 7 (\<lambda>a n. Inr None) ex_started) = ThrowError AlreadySuspended
   \<and> fst (suspend 7 (\<lambda>a n. Inr None) ex_started) = ThrowError AlreadySuspended
   \<and> wakeFn (snd (suspendWithTimeout 10 7 (\<lambda>a n. Inr None) ex_started)) = Some ex_wake
   \<and> syncData (snd (suspendWithTimeout 10 7 (\<lambda>a n. Inr None) ex_started)) = Some 0"
proof -
  have h: "\<not> isActive ex_started"
    by (simp add: ex_started_def ex_model_def start_def suspendWithTimeout_def subscribe_def
        StatelessModel_new_def isActive_def)
  have w: "wakeFn ex_started = Some ex_wake" and s: "syncData ex_started = Some 0"
    by (simp_all add: ex_started_def ex_model_def start_def suspendWithTimeout_def subscribe_def
        StatelessModel_new_def)
  show ?thesis
    using suspend_twice_fails [OF h, of 10 7 "\<lambda>a n. Inr None"] h w s by simp
qed

section \<open>Waking up\<close>

lemma ex_started_fields:
  "wakeFn ex_started = Some ex_wake"
  "syncData ex_started = Some 0"
  "state ex_started = 0"
  "wakeEvents ex_started =
     \<lparr>isStopped = False, thrownError = None, emitted = [],
      observers = [\<lparr>timer = Some 50, buffer = [], closed = False, received = []\<rparr>]\<rparr>"
  by (simp_all add: ex_started_def ex_model_def start_def suspendWithTimeout_def subscribe_def
      StatelessModel_new_def new_Subject_def new_subscriber_def)

lemma live_ex_started: "live ex_started"
  by (simp add: live_def ex_started_fields)

lemma ex_wake_simps:
  "ex_wake (act ''READY'') n = Inr None"
  "ex_wake (failed_act ''READY'' msg) n = Inr None"
  "ex_wake (act ''STEP'') n = Inr (Some (Suc n))"
  "ex_wake (act ''BAD'') n = Inl (Thrown ''broken predicate'')"
  "ex_wake (act ''OTHER'') n = Inr (Some n)"
  by (simp_all add: ex_wake_def act_def failed_act_def)

lemma act_error:
  "error (act k) = None"
  "error (failed_act k msg) = Some (Thrown msg)"
  by (simp_all add: act_def failed_act_def)

text \<open>
  C4. An action \<open>a\<close> reaches a suspended model and the wake predicate, applied to \<open>a\<close>
  and the current sync data, returns that same sync data: \<open>wakeUp\<close> changes nothing.
  The model stays suspended, the sync data, the stream (its trace, its subscribers with
  their buffers and what they received) and the committed state are as before, and
  whatever happens afterwards happens as if \<open>a\<close> had not arrived, so \<open>a\<close> is never
  emitted.
\<close>

theorem wakeUp_same_sync_noop:
  assumes "wakeFn m = Some f" and "syncData m = Some sd" and "f a sd = Inr (Some sd)"
  shows "\<not> isActive (wakeUp a m)
     \<and> syncData (wakeUp a m) = Some sd
     \<and> wakeEvents (wakeUp a m) = wakeEvents m
     \<and> state (wakeUp a m) = state m
     \<and> wakeUp a m = m
     \<and> run es (wakeUp a m) = run es m"
  using assms by (simp add: wakeUp_def isActive_def)

text \<open>C4 at \<open>ex_started\<close> and the action OTHER, which \<open>ex_wake\<close> answers with the
  sync data it was given.\<close>

theorem wakeUp_same_sync_noop_witness:
  "wakeFn ex_started = Some ex_wake \<and> syncData ex_started = Some 0
   \<and> ex_wake (act ''OTHER'') 0 = Inr (Some 0)
   \<and> \<not> isActive (wakeUp (act ''OTHER'') ex_started)
   \<and> syncData (wakeUp (act ''OTHER'') ex_started) = Some 0
   \<and> emitted (wakeEvents (wakeUp (act ''OTHER'') ex_started)) = []
   \<and> delivered 0 (wakeUp (act ''OTHER'') ex_started) = []
   \<and> state (wakeUp (act ''OTHER'') ex_started) = 0"
  using wakeUp_same_sync_noop [OF ex_started_fields(1) ex_started_fields(2) ex_wake_simps(5), of "[]"]
  by (simp add: ex_started_fields ex_wake_simps delivered_def isActive_def)

text \<open>
  C6. An action \<open>a\<close> reaches a suspended model and the wake predicate returns null:
  the model is active afterwards, and the stream ends. When \<open>a\<close> carries an error the
  subject fails with it and every open subscription is sent that error only; otherwise
  the subject emits \<open>a\<close> once and completes, and every open subscription is sent the
  actions it buffered, then \<open>a\<close>, then the completion.
\<close>

theorem wakeUp_null_wakes:
  assumes "live m" and "wakeFn m = Some f" and "syncData m = Some sd" and "f a sd = Inr None"
  shows "isActive (wakeUp a m)
     \<and> isStopped (wakeEvents (wakeUp a m))
     \<and> emitted (wakeEvents (wakeUp a m))
         = emitted (wakeEvents m)
           @ (case error a of Some e \<Rightarrow> [ErrorN e] | None \<Rightarrow> [NextN a, CompleteN])
     \<and> map received (observers (wakeEvents (wakeUp a m)))
         = map (\<lambda>p. if closed p then received p
                     else received p
                          @ (case error a of
                               Some e \<Rightarrow> [ErrorN e]
                             | None \<Rightarrow> map NextN (buffer p) @ [NextN a, CompleteN]))
             (observers (wakeEvents m))"
  using assms live_stream [OF assms(1) assms(2)]
  by (simp add: wakeUp_def isActive_def subject_next_def subject_complete_def subject_error_def
      sub_next_def sub_complete_def sub_error_def split: option.splits)

text \<open>C6 at \<open>ex_started\<close>: READY without an error is emitted once and the stream
  completes; READY carrying an error fails the stream.\<close>

theorem wakeUp_null_wakes_witness:
  "live ex_started \<and> wakeFn ex_started = Some ex_wake \<and> syncData ex_started = Some 0
   \<and> ex_wake (act ''READY'') 0 = Inr None
   \<and> isActive (wakeUp (act ''READY'') ex_started)
   \<and> emitted (wakeEvents (wakeUp (act ''READY'') ex_started)) = [NextN (act ''READY''), CompleteN]
   \<and> map received (observers (wakeEvents (wakeUp (act ''READY'') ex_started)))
       = [[NextN (act ''READY''), CompleteN]]
   \<and> isActive (wakeUp (failed_act ''READY'' ''no data'') ex_started)
   \<and> map received (observers (wakeEvents (wakeUp (failed_act ''READY'' ''no data'') ex_started)))
       = [[ErrorN (Thrown ''no data'')]]"
  using wakeUp_null_wakes [OF live_ex_started ex_started_fields(1) ex_started_fields(2)
      ex_wake_simps(1)]
    wakeUp_null_wakes [OF live_ex_started ex_started_fields(1) ex_started_fields(2)
      ex_wake_simps(2), of "''no data''"]
  by (simp add: live_ex_started ex_started_fields ex_wake_simps act_error)

text \<open>
  C8. An action reaches a suspended model and the wake predicate raises \<open>e\<close>: the
  suspension ends. The model is active afterwards, the subject has failed with \<open>e\<close>
  and every open subscription is sent \<open>e\<close> as its error.
\<close>

theorem wakeUp_predicate_throws:
  assumes "live m" and "wakeFn m = Some f" and "syncData m = Some sd" and "f a sd = Inl e"
  shows "isActive (wakeUp a m)
     \<and> isStopped (wakeEvents (wakeUp a m))
     \<and> thrownError (wakeEvents (wakeUp a m)) = Some e
     \<and> emitted (wakeEvents (wakeUp a m)) = emitted (wakeEvents m) @ [ErrorN e]
     \<and> map received (observers (wakeEvents (wakeUp a m)))
         = map (\<lambda>p. if closed p then received p else received p @ [ErrorN e])
             (observers (wakeEvents m))"
  using assms live_stream [OF assms(1) assms(2)]
  by (simp add: wakeUp_def isActive_def subject_error_def sub_error_def)

text \<open>C8 at \<open>ex_started\<close> and the action BAD, on which \<open>ex_wake\<close> throws.\<close>

theorem wakeUp_predicate_throws_witness:
  "live ex_started \<and> wakeFn ex_started = Some ex_wake \<and> syncData ex_started = Some 0
   \<and> ex_wake (act ''BAD'') 0 = Inl (Thrown ''broken predicate'')
   \<and> isActive (wakeUp (act ''BAD'') ex_started)
   \<and> emitted (wakeEvents (wakeUp (act ''BAD'') ex_started)) = [ErrorN (Thrown ''broken predicate'')]
   \<and> map received (observers (wakeEvents (wakeUp (act ''BAD'') ex_started)))
       = [[ErrorN (Thrown ''broken predicate'')]]"
  using wakeUp_predicate_throws [OF live_ex_started ex_started_fields(1) ex_started_fields(2)
      ex_wake_simps(4)]
  by (simp add: live_ex_started ex_started_fields ex_wake_simps)

section \<open>What the subscribers of a suspension are sent\<close>

lemma buffered_Nil: "buffered [] p = p"
  by (simp add: buffered_def)

lemma buffered_Cons: "buffered fw (sub_next a p) = buffered (a # fw) p"
  by (simp add: buffered_def sub_next_def)

lemma wakeUp_forward:
  "wakeFn m = Some f \<Longrightarrow> syncData m = Some sd \<Longrightarrow> \<not> isStopped (wakeEvents m) \<Longrightarrow>
   f a sd = Inr (Some v) \<Longrightarrow> v \<noteq> sd \<Longrightarrow>
   wakeUp a m = m\<lparr>wakeEvents := (wakeEvents m)\<lparr>emitted := emitted (wakeEvents m) @ [NextN a],
                      observers := map (sub_next a) (observers (wakeEvents m))\<rparr>,
                 syncData := Some v\<rparr>"
  by (simp add: wakeUp_def subject_next_def)

text \<open>A run of actions that keep the model suspended only moves the sync data and
  fills the buffers of the open subscriptions with the forwarded actions.\<close>

lemma run_forwarded:
  "wakeFn m = Some f \<Longrightarrow> syncData m = Some sd \<Longrightarrow> \<not> isStopped (wakeEvents m) \<Longrightarrow>
   forwarded f sd as = Some (sd', fw) \<Longrightarrow>
   run (map WakeUp as) m =
     m\<lparr>wakeEvents := (wakeEvents m)\<lparr>emitted := emitted (wakeEvents m) @ map NextN fw,
                      observers := map (buffered fw) (observers (wakeEvents m))\<rparr>,
       syncData := Some sd'\<rparr>"
proof (induction as arbitrary: m sd fw)
  case Nil
  then show ?case by (simp add: run_def buffered_Nil)
next
  case (Cons a as)
  from Cons.prems(4) obtain v where v: "f a sd = Inr (Some v)"
    by (auto split: sum.splits option.splits)
  show ?case
  proof (cases "v = sd")
    case True
    with v Cons.prems have same: "wakeUp a m = m" and fw: "forwarded f sd as = Some (sd', fw)"
      by (simp_all add: wakeUp_def)
    have "run (map WakeUp (a # as)) m = run (map WakeUp as) m"
      using same by (simp add: run_def)
    with Cons.IH [OF Cons.prems(1) Cons.prems(2) Cons.prems(3) fw] show ?thesis by simp
  next
    case False
    with v Cons.prems(4) obtain fw' where
      fw': "forwarded f v as = Some (sd', fw')" and fw: "fw = a # fw'"
      by (auto split: option.splits)
    let ?m1 = "wakeUp a m"
    have m1: "?m1 = m\<lparr>wakeEvents := (wakeEvents m)\<lparr>emitted := emitted (wakeEvents m) @ [NextN a],
                      observers := map (sub_next a) (observers (wakeEvents m))\<rparr>,
                 syncData := Some v\<rparr>"
      using wakeUp_forward [OF Cons.prems(1) Cons.prems(2) Cons.prems(3) v False] .
    have a1: "wakeFn ?m1 = Some f" and a2: "syncData ?m1 = Some v"
      and a3: "\<not> isStopped (wakeEvents ?m1)"
      using Cons.prems(1) Cons.prems(3) by (simp_all add: m1)
    have "run (map WakeUp (a # as)) m = run (map WakeUp as) ?m1"
      by (simp add: run_def)
    also have "\<dots> = ?m1\<lparr>wakeEvents := (wakeEvents ?m1)
                        \<lparr>emitted := emitted (wakeEvents ?m1) @ map NextN fw',
                         observers := map (buffered fw') (observers (wakeEvents ?m1))\<rparr>,
                      syncData := Some sd'\<rparr>"
      using Cons.IH [OF a1 a2 a3 fw'] .
    also have "\<dots> = m\<lparr>wakeEvents := (wakeEvents m)
                        \<lparr>emitted := emitted (wakeEvents m) @ map NextN fw,
                         observers := map (buffered fw) (observers (wakeEvents m))\<rparr>,
                      syncData := Some sd'\<rparr>"
      by (simp add: m1 fw buffered_Cons comp_def)
    finally show ?thesis .
  qed
qed

lemma no_next_sub_next: "no_next p \<Longrightarrow> no_next (sub_next a p)"
  by (simp add: no_next_def sub_next_def)

lemma no_next_sub_timeout: "no_next p \<Longrightarrow> no_next (sub_timeout p)"
  by (auto simp add: no_next_def sub_timeout_def sub_error_def split: option.splits)

lemma no_next_new_subscriber: "no_next (new_subscriber obs s)"
  by (auto simp add: no_next_def new_subscriber_def split: option.splits Observable.splits)

lemma quiet_wakeUp: "quiet m \<Longrightarrow> quiet (wakeUp a m)"
  by (auto simp add: quiet_def isActive_def wakeUp_def subject_next_def list_all_iff
      no_next_sub_next split: option.splits sum.splits)

lemma quiet_subscribe: "quiet m \<Longrightarrow> quiet (subscribe obs m)"
  by (auto simp add: quiet_def isActive_def subscribe_def no_next_new_subscriber
      split: Observable.splits)

lemma quiet_timer_fires: "quiet m \<Longrightarrow> quiet (timer_fires i m)"
  by (auto simp add: quiet_def isActive_def timer_fires_def list_all_length nth_list_update
      no_next_sub_timeout)

lemma quiet_step: "quiet m \<Longrightarrow> quiet (step e m)"
  by (cases e) (simp_all add: quiet_wakeUp quiet_subscribe quiet_timer_fires)

lemma quiet_run: "quiet m \<Longrightarrow> quiet (run es m)"
  unfolding run_def by (induction es arbitrary: m) (simp_all add: quiet_step)

lemma quiet_start: "isActive m0 \<Longrightarrow> quiet (start t sd f m0)"
  by (simp add: quiet_def isActive_def start_def suspendWithTimeout_def subscribe_def
      new_Subject_def no_next_new_subscriber)

text \<open>A subscription that has ended is sent nothing more, whatever happens next.\<close>

lemma closed_sub_inert:
  "closed p \<Longrightarrow> sub_next a p = p"
  "closed p \<Longrightarrow> sub_error e p = p"
  "closed p \<Longrightarrow> sub_complete p = p"
  "closed p \<Longrightarrow> sub_timeout p = p"
  by (simp_all add: sub_next_def sub_error_def sub_complete_def sub_timeout_def
      split: option.splits)

lemma ended_wakeUp: "ended i p m \<Longrightarrow> ended i p (wakeUp a m)"
  by (auto simp add: ended_def wakeUp_def subject_next_def subject_error_def subject_complete_def
      closed_sub_inert split: option.splits sum.splits)

lemma ended_subscribe: "ended i p m \<Longrightarrow> ended i p (subscribe obs m)"
  by (auto simp add: ended_def subscribe_def nth_append split: Observable.splits)

lemma ended_timer_fires: "ended i p m \<Longrightarrow> ended i p (timer_fires j m)"
  by (auto simp add: ended_def timer_fires_def nth_list_update closed_sub_inert)

lemma ended_step: "ended i p m \<Longrightarrow> ended i p (step e m)"
  by (cases e) (simp_all add: ended_wakeUp ended_subscribe ended_timer_fires)

lemma ended_run: "ended i p m \<Longrightarrow> ended i p (run es m)"
  unfolding run_def by (induction es arbitrary: m) (simp_all add: ended_step)

lemma ended_delivered: "ended i p m \<Longrightarrow> delivered i (run es m) = received p"
  using ended_run [of i p m es] by (simp add: ended_def delivered_def)

lemma start_fields:
  assumes "isActive m0"
  shows "wakeFn (start t sd f m0) = Some f"
    and "syncData (start t sd f m0) = Some sd"
    and "wakeEvents (start t sd f m0) =
           \<lparr>isStopped = False, thrownError = None, emitted = [],
            observers = [\<lparr>timer = (if t > 0 then Some t else None), buffer = [],
                          closed = False, received = []\<rparr>]\<rparr>"
  using assms
  by (simp_all add: isActive_def start_def suspendWithTimeout_def subscribe_def new_Subject_def
      new_subscriber_def)

lemma run_start:
  assumes "isActive m0" and "forwarded f sd as = Some (sd', fw)"
  shows "wakeFn (run (map WakeUp as) (start t sd f m0)) = Some f"
    and "syncData (run (map WakeUp as) (start t sd f m0)) = Some sd'"
    and "wakeEvents (run (map WakeUp as) (start t sd f m0)) =
           \<lparr>isStopped = False, thrownError = None, emitted = map NextN fw,
            observers = [\<lparr>timer = (if t > 0 then Some t else None), buffer = fw,
                          closed = False, received = []\<rparr>]\<rparr>"
proof -
  let ?s = "start t sd f m0"
  have live: "\<not> isStopped (wakeEvents ?s)"
    by (simp add: start_fields [OF assms(1)])
  note r = run_forwarded [OF start_fields(1) [OF assms(1)] start_fields(2) [OF assms(1)] live assms(2)]
  show "wakeFn (run (map WakeUp as) ?s) = Some f"
    by (simp add: r start_fields [OF assms(1)])
  show "syncData (run (map WakeUp as) ?s) = Some sd'"
    by (simp add: r)
  show "wakeEvents (run (map WakeUp as) ?s) =
           \<lparr>isStopped = False, thrownError = None, emitted = map NextN fw,
            observers = [\<lparr>timer = (if t > 0 then Some t else None), buffer = fw,
                          closed = False, received = []\<rparr>]\<rparr>"
    by (simp add: r start_fields [OF assms(1)] buffered_def)
qed

text \<open>
  C9, as amended. Whatever happens during a suspension (actions, subscriptions, timers,
  in any order), no subscriber has been sent an action while the model is suspended.
  For a subscriber attached when the suspension starts, and a run \<open>as\<close> of actions that
  keep the model suspended and forward the actions \<open>fw\<close>: the subscriber has been sent
  nothing after the run; if the next action wakes the model and carries no error, the
  subscriber is sent \<open>fw\<close> in order, then the waking action, then the completion; if
  the waking action carries an error, or the predicate throws, or the subscriber's timer
  fires, it is sent that error and none of the buffered actions, nor anything later.
\<close>

theorem suspension_stream_delivery:
  assumes "isActive m0" and "forwarded f sd as = Some (sd', fw)"
  shows "quiet (run es (start t sd f m0))
     \<and> \<not> isActive (run (map WakeUp as) (start t sd f m0))
     \<and> delivered 0 (run (map WakeUp as) (start t sd f m0)) = []
     \<and> (f a sd' = Inr None \<and> error a = None \<longrightarrow>
          isActive (wakeUp a (run (map WakeUp as) (start t sd f m0)))
          \<and> delivered 0 (wakeUp a (run (map WakeUp as) (start t sd f m0)))
              = map NextN fw @ [NextN a, CompleteN])
     \<and> (f a sd' = Inr None \<and> error a = Some e \<longrightarrow>
          isActive (wakeUp a (run (map WakeUp as) (start t sd f m0)))
          \<and> delivered 0 (wakeUp a (run (map WakeUp as) (start t sd f m0))) = [ErrorN e])
     \<and> (f a sd' = Inl e \<longrightarrow>
          delivered 0 (wakeUp a (run (map WakeUp as) (start t sd f m0))) = [ErrorN e])
     \<and> (0 < t \<longrightarrow>
          delivered 0 (run es (timer_fires 0 (run (map WakeUp as) (start t sd f m0))))
            = [ErrorN (SuspendTimeout t)])"
proof -
  let ?m = "run (map WakeUp as) (start t sd f m0)"
  note fields = run_start [OF assms, of t]
  have q: "quiet (run es (start t sd f m0))"
    by (rule quiet_run [OF quiet_start [OF assms(1)]])
  have s: "\<not> isActive ?m" "delivered 0 ?m = []"
    by (simp_all add: isActive_def delivered_def fields)
  have w1: "f a sd' = Inr None \<and> error a = None \<longrightarrow>
          isActive (wakeUp a ?m) \<and> delivered 0 (wakeUp a ?m) = map NextN fw @ [NextN a, CompleteN]"
    by (simp add: isActive_def delivered_def wakeUp_def fields subject_next_def
        subject_complete_def sub_next_def sub_complete_def)
  have w2: "f a sd' = Inr None \<and> error a = Some e \<longrightarrow>
          isActive (wakeUp a ?m) \<and> delivered 0 (wakeUp a ?m) = [ErrorN e]"
    by (simp add: isActive_def delivered_def wakeUp_def fields subject_error_def sub_error_def)
  have w3: "f a sd' = Inl e \<longrightarrow> delivered 0 (wakeUp a ?m) = [ErrorN e]"
    by (simp add: delivered_def wakeUp_def fields subject_error_def sub_error_def)
  have w4: "0 < t \<longrightarrow> delivered 0 (run es (timer_fires 0 ?m)) = [ErrorN (SuspendTimeout t)]"
  proof
    assume t: "0 < t"
    let ?p = "\<lparr>timer = None, buffer = fw, closed = True,
               received = [ErrorN (SuspendTimeout t)]\<rparr> :: 'c Subscriber"
    have "ended 0 ?p (timer_fires 0 ?m)"
      using t by (simp add: ended_def timer_fires_def fields sub_timeout_def sub_error_def)
    from ended_delivered [OF this] show "delivered 0 (run es (timer_fires 0 ?m)) = [ErrorN (SuspendTimeout t)]"
      by simp
  qed
  from q s w1 w2 w3 w4 show ?thesis by blast
qed

text \<open>
  C9 at \<open>ex_model\<close>, suspended with sync data 0 and a timeout of 50: the run OTHER,
  STEP, OTHER, STEP forwards the two STEPs; READY then delivers STEP, STEP, READY and the
  completion; a READY carrying an error, BAD, and the timer deliver the error only.
\<close>

theorem suspension_stream_delivery_witness:
  "isActive ex_model
   \<and> forwarded ex_wake 0 [act ''OTHER'', act ''STEP'', act ''OTHER'', act ''STEP'']
       = Some (2, [act ''STEP'', act ''STEP''])
   \<and> delivered 0 (run (map WakeUp [act ''OTHER'', act ''STEP'', act ''OTHER'', act ''STEP''])
                    (start 50 0 ex_wake ex_model)) = []
   \<and> delivered 0 (wakeUp (act ''READY'')
        (run (map WakeUp [act ''OTHER'', act ''STEP'', act ''OTHER'', act ''STEP''])
           (start 50 0 ex_wake ex_model)))
       = [NextN (act ''STEP''), NextN (act ''STEP''), NextN (act ''READY''), CompleteN]
   \<and> delivered 0 (wakeUp (failed_act ''READY'' ''no data'')
        (run (map WakeUp [act ''OTHER'', act ''STEP'', act ''OTHER'', act ''STEP''])
           (start 50 0 ex_wake ex_model)))
       = [ErrorN (Thrown ''no data'')]
   \<and> delivered 0 (wakeUp (act ''BAD'')
        (run (map WakeUp [act ''OTHER'', act ''STEP'', act ''OTHER'', act ''STEP''])
           (start 50 0 ex_wake ex_model)))
       = [ErrorN (Thrown ''broken predicate'')]
   \<and> delivered 0 (run [WakeUp (act ''STEP''), WakeUp (act ''READY'')] (timer_fires 0
        (run (map WakeUp [act ''OTHER'', act ''STEP'', act ''OTHER'', act ''STEP''])
           (start 50 0 ex_wake ex_model))))
       = [ErrorN (SuspendTimeout 50)]"
proof -
  have a: "isActive ex_model"
    by (simp add: ex_model_def StatelessModel_new_def isActive_def)
  have fw: "forwarded ex_wake 0 [act ''OTHER'', act ''STEP'', act ''OTHER'', act ''STEP'']
              = Some (2, [act ''STEP'', act ''STEP''])"
    by (simp add: ex_wake_simps numeral_2_eq_2)
  note t = suspension_stream_delivery [OF a fw, of "[WakeUp (act ''STEP''), WakeUp (act ''READY'')]" 50]
  show ?thesis
    using a fw t [of "act ''READY''" "Thrown ''unused''"]
      t [of "failed_act ''READY'' ''no data''" "Thrown ''no data''"]
      t [of "act ''BAD''" "Thrown ''broken predicate''"]
    by (simp add: ex_wake_simps act_error)
qed

text \<open>
  C9 as stated fails when the waking action carries an error. STEP is forwarded while
  the model is suspended; READY with an error then wakes the model; the subscriber, there
  from the start, is sent the error alone: neither the buffered STEP nor the waking
  action is delivered, although the model has woken up, and this is neither a timeout
  nor a predicate error.
\<close>

theorem error_wake_drops_buffer:
  "forwarded ex_wake 0 [act ''STEP''] = Some (1, [act ''STEP''])
   \<and> ex_wake (failed_act ''READY'' ''no data'') 1 = Inr None
   \<and> isActive (wakeUp (failed_act ''READY'' ''no data'') (wakeUp (act ''STEP'') ex_started))
   \<and> delivered 0 (wakeUp (failed_act ''READY'' ''no data'') (wakeUp (act ''STEP'') ex_started))
       = [ErrorN (Thrown ''no data'')]
   \<and> NextN (act ''STEP'')
       \<notin> set (delivered 0 (wakeUp (failed_act ''READY'' ''no data'') (wakeUp (act ''STEP'') ex_started)))"
proof -
  have m1: "wakeUp (act ''STEP'') ex_started =
      ex_started\<lparr>wakeEvents := (wakeEvents ex_started)\<lparr>emitted := emitted (wakeEvents ex_started) @ [NextN (act ''STEP'')],
                      observers := map (sub_next (act ''STEP'')) (observers (wakeEvents ex_started))\<rparr>,
                 syncData := Some 1\<rparr>"
    by (rule wakeUp_forward [OF ex_started_fields(1) ex_started_fields(2)])
      (simp_all add: ex_started_fields ex_wake_simps)
  show ?thesis
    by (simp add: m1 ex_wake_simps act_error ex_started_fields wakeUp_def isActive_def
        delivered_def subject_error_def subject_next_def sub_error_def sub_next_def)
qed

section \<open>A forwarded action on its way to the subscribers\<close>








section \<open>The timeout of a suspension\<close>

text \<open>A timer that fires reaches one subscription and no field of the model beside
  the stream: the wake predicate and the sync data stay stored.\<close>

lemma timer_fires_keeps_wake_state:
  "wakeFn (timer_fires i m) = wakeFn m"
  "syncData (timer_fires i m) = syncData m"
  "isActive (timer_fires i m) = isActive m"
  by (simp_all add: timer_fires_def isActive_def)

text \<open>
  C1 on the code. \<open>ex_model\<close> is suspended with a timeout of 50 and subscribed to; no
  action arrives and the timer fires. The subscriber is sent the timeout error, yet the
  model is not active: the wake predicate is still stored, the STEP that arrives later is
  still evaluated by it against the stored sync data (which becomes 1), and only a later
  READY makes the model active.
\<close>

theorem suspend_timeout_stays_suspended:
  "delivered 0 (timer_fires 0 ex_started) = [ErrorN (SuspendTimeout 50)]
   \<and> \<not> isActive (timer_fires 0 ex_started)
   \<and> wakeFn (timer_fires 0 ex_started) = Some ex_wake
   \<and> syncData (timer_fires 0 ex_started) = Some 0
   \<and> syncData (wakeUp (act ''STEP'') (timer_fires 0 ex_started)) = Some 1
   \<and> \<not> isActive (wakeUp (act ''STEP'') (timer_fires 0 ex_started))
   \<and> isActive (wakeUp (act ''READY'') (timer_fires 0 ex_started))"
  by (simp add: timer_fires_keeps_wake_state ex_started_fields isActive_def delivered_def
      timer_fires_def sub_timeout_def sub_error_def wakeUp_def ex_wake_simps act_error)

section \<open>Registering handlers\<close>

lemma toString_inherited: "''toString'' \<in> set Object_prototype"
  by (simp add: Object_prototype_def)

lemma getProp_upd: "getProp (obj(k \<mapsto> v)) k = Own v"
  by (simp add: getProp_def)

lemma getProp_empty_plain: "k \<notin> set Object_prototype \<Longrightarrow> getProp Map.empty k = Undefined"
  by (simp add: getProp_def)

text \<open>A reducer for a kind whose lookup already finds something is refused, and so is a
  side-effect producer; the refusal of the reducer leaves the model untouched.\<close>

lemma addActionHandler_second_reducer:
  "getProp (actionMatch m) k \<noteq> Undefined \<Longrightarrow>
     addActionHandler k (Some r) se m = Inl (ReducerAlreadyDefined k, m)"
  by (simp add: addActionHandler_def split: property.splits)

lemma addActionHandler_second_producer:
  "getProp (sideEffectMatch m) k \<noteq> Undefined \<Longrightarrow> isl (addActionHandler k r (Some se) m)"
  by (auto simp add: addActionHandler_def split: property.splits option.splits)

text \<open>For a kind that is not the name of a property of \<open>Object.prototype\<close>,
  \<open>replaceActionHandler\<close> returns, and the tables hold for that kind exactly the
  handlers supplied (none where none was supplied).\<close>

lemma replaceActionHandler_plain_kind:
  "k \<notin> set Object_prototype \<Longrightarrow>
   replaceActionHandler k r se m =
     Inr (createHandlerModifier k,
          m\<lparr>actionMatch := (actionMatch m)(k := map_option produce r),
            sideEffectMatch := (sideEffectMatch m)(k := se)\<rparr>)"
  by (cases r; cases se) (simp_all add: replaceActionHandler_def addActionHandler_def getProp_def)

text \<open>
  C2 on the code. \<open>replaceActionHandler\<close> for the kind 'toString' with a reducer
  throws 'Reducer for [toString] already defined.', on a new model and on a model whose
  table has a reducer of its own for 'toString' (as after
  \<^verbatim>\<open>addActionHandler('INC', r).reduceAlsoOn('toString')\<close>): \<open>delete\<close> removes the
  own property only, and the lookup in \<open>addActionHandler\<close> then finds
  \<open>Object.prototype.toString\<close>, which is not \<open>undefined\<close>. The throw leaves the
  second model without the reducer it had.
\<close>

theorem replaceActionHandler_inherited_kind_throws:
  "replaceActionHandler ''toString'' (Some ex_reducer) None ex_model
     = Inl (ReducerAlreadyDefined ''toString'', ex_model)
   \<and> getProp (actionMatch (ex_model\<lparr>actionMatch := [''toString'' \<mapsto> produce ex_reducer]\<rparr>))
         ''toString'' = Own (produce ex_reducer)
   \<and> replaceActionHandler ''toString'' (Some ex_reducer) None
         (ex_model\<lparr>actionMatch := [''toString'' \<mapsto> produce ex_reducer]\<rparr>)
     = Inl (ReducerAlreadyDefined ''toString'', ex_model)"
  by (simp add: replaceActionHandler_def addActionHandler_def getProp_def ex_model_def
      StatelessModel_new_def toString_inherited)

text \<open>
  C10. \<open>addActionHandler\<close> is called with a reducer for a kind that has no reducer
  yet and with a side-effect producer for that kind, which already has one: the call
  throws 'Side-effect producer for [k] already defined.', and the model the throw leaves
  behind has the new reducer installed for the kind.
\<close>

theorem addActionHandler_not_atomic:
  assumes "getProp (actionMatch m) k = Undefined"
    and "getProp (sideEffectMatch m) k \<noteq> Undefined"
  shows "addActionHandler k (Some r) (Some se) m =
           Inl (SideEffectAlreadyDefined k, m\<lparr>actionMatch := (actionMatch m)(k \<mapsto> produce r)\<rparr>)
     \<and> getProp (actionMatch (snd (projl (addActionHandler k (Some r) (Some se) m)))) k
         = Own (produce r)"
proof -
  have "addActionHandler k (Some r) (Some se) m =
           Inl (SideEffectAlreadyDefined k, m\<lparr>actionMatch := (actionMatch m)(k \<mapsto> produce r)\<rparr>)"
    using assms by (cases "getProp (sideEffectMatch m) k") (simp_all add: addActionHandler_def)
  then show ?thesis by (simp add: getProp_upd)
qed

text \<open>
  C10 at a model that has a side-effect producer for INC and no reducer: adding a
  reducer together with a second producer throws, and the reducer stays registered, so
  that adding the reducer again is refused.
\<close>

theorem addActionHandler_not_atomic_witness:
  "getProp (actionMatch (ex_model\<lparr>sideEffectMatch := [''INC'' \<mapsto> ex_producer]\<rparr>)) ''INC'' = Undefined
   \<and> getProp (sideEffectMatch (ex_model\<lparr>sideEffectMatch := [''INC'' \<mapsto> ex_producer]\<rparr>)) ''INC''
       = Own ex_producer
   \<and> addActionHandler ''INC'' (Some ex_reducer) (Some ex_producer)
         (ex_model\<lparr>sideEffectMatch := [''INC'' \<mapsto> ex_producer]\<rparr>)
       = Inl (SideEffectAlreadyDefined ''INC'',
              ex_model\<lparr>sideEffectMatch := [''INC'' \<mapsto> ex_producer],
                       actionMatch := [''INC'' \<mapsto> produce ex_reducer]\<rparr>)
   \<and> addActionHandler ''INC'' (Some ex_reducer) None
         (snd (projl (addActionHandler ''INC'' (Some ex_reducer) (Some ex_producer)
            (ex_model\<lparr>sideEffectMatch := [''INC'' \<mapsto> ex_producer]\<rparr>))))
       = Inl (ReducerAlreadyDefined ''INC'',
              ex_model\<lparr>sideEffectMatch := [''INC'' \<mapsto> ex_producer],
                       actionMatch := [''INC'' \<mapsto> produce ex_reducer]\<rparr>)"
proof -
  let ?m = "ex_model\<lparr>sideEffectMatch := [''INC'' \<mapsto> ex_producer]\<rparr>"
  have h1: "getProp (actionMatch ?m) ''INC'' = Undefined"
    by (simp add: ex_model_def StatelessModel_new_def getProp_def Object_prototype_def)
  have h2: "getProp (sideEffectMatch ?m) ''INC'' = Own ex_producer"
    by (simp add: getProp_def)
  have h3: "getProp (sideEffectMatch ?m) ''INC'' \<noteq> Undefined"
    by (simp add: getProp_def)
  have e: "actionMatch ex_model = Map.empty"
    by (simp add: ex_model_def StatelessModel_new_def)
  note t = addActionHandler_not_atomic [OF h1 h3, of ex_reducer ex_producer]
  have again: "addActionHandler ''INC'' (Some ex_reducer) None
         (ex_model\<lparr>sideEffectMatch := [''INC'' \<mapsto> ex_producer],
                  actionMatch := [''INC'' \<mapsto> produce ex_reducer]\<rparr>)
       = Inl (ReducerAlreadyDefined ''INC'',
              ex_model\<lparr>sideEffectMatch := [''INC'' \<mapsto> ex_producer],
                       actionMatch := [''INC'' \<mapsto> produce ex_reducer]\<rparr>)"
    by (rule addActionHandler_second_reducer) (simp add: getProp_def)
  show ?thesis
    using t h1 h2 again by (simp add: e)
qed

section \<open>Side effects in the dispatcher\<close>

lemma seDispatch_all_flagged:
  "isSideEffect' action = Some True \<Longrightarrow> ses \<noteq> [] \<Longrightarrow>
     seDispatch_all action ses d = Inl NestedSideEffect"
  by (cases ses) (simp_all add: seDispatch_def)

lemma seDispatch_all_plain:
  "isSideEffect' action \<noteq> Some True \<Longrightarrow>
     seDispatch_all action ses d = Inr (d\<lparr>inAction := inAction d @ map asSideEffect ses\<rparr>)"
  by (induction ses arbitrary: d) (simp_all add: seDispatch_def dispatch_def asSideEffect_def)

text \<open>
  C3. While the action being processed has \<open>isSideEffect\<close> true, a call of the
  dispatch helper throws 'Nested side-effect not allowed' and dispatches nothing, so a
  side-effect handler that calls it at all fails the step. While the flag is not true
  (false or absent), a call dispatches the new action: what is pushed into the
  dispatcher has the type, payload and error of the handler's action and
  \<open>isSideEffect\<close> true, and a handler's calls are pushed in order.
\<close>

theorem seDispatch_nested_guard:
  "(isSideEffect' action = Some True \<longrightarrow>
      seDispatch action seAction d = Inl NestedSideEffect
      \<and> (se (reduce st action) action \<noteq> [] \<longrightarrow>
           registerReducer_step reduce (Some se) st (Some action) d = Inl NestedSideEffect))
   \<and> (isSideEffect' action \<noteq> Some True \<longrightarrow>
      seDispatch action seAction d
        = Inr (d\<lparr>inAction := inAction d
                   @ [\<lparr>type' = type' seAction, payload' = payload' seAction,
                       error' = error' seAction, isSideEffect' = Some True\<rparr>]\<rparr>)
      \<and> registerReducer_step reduce (Some se) st (Some action) d
        = Inr (reduce st action,
               d\<lparr>inAction := inAction d @ map asSideEffect (se (reduce st action) action)\<rparr>))"
  by (simp add: seDispatch_def dispatch_def registerReducer_step_def Let_def
      seDispatch_all_flagged seDispatch_all_plain)

text \<open>
  C3 at a handler that answers every action with the action DONE: on an action that is
  itself a side effect the helper and the step throw; on an action from the UI, and on
  one whose flag is false, DONE is dispatched with the flag set.
\<close>

theorem seDispatch_nested_guard_witness:
  "isSideEffect' (se_action ''LOADED'') = Some True
   \<and> isSideEffect' (ui_action ''LOAD'') \<noteq> Some True
   \<and> seDispatch (se_action ''LOADED'') (ui_action ''DONE'') ex_dispatcher = Inl NestedSideEffect
   \<and> registerReducer_step (\<lambda>n a. Suc n) (Some (\<lambda>n a. [ui_action ''DONE''])) 0
        (Some (se_action ''LOADED'')) ex_dispatcher = Inl NestedSideEffect
   \<and> seDispatch (ui_action ''LOAD'') (ui_action ''DONE'') ex_dispatcher
       = Inr \<lparr>inAction = [se_action ''DONE'']\<rparr>
   \<and> registerReducer_step (\<lambda>n a. Suc n) (Some (\<lambda>n a. [ui_action ''DONE''])) 0
        (Some (ui_action ''LOAD'')) ex_dispatcher = Inr (Suc 0, \<lparr>inAction = [se_action ''DONE'']\<rparr>)
   \<and> seDispatch ((ui_action ''LOAD'')\<lparr>isSideEffect' := Some False\<rparr>) (ui_action ''DONE'')
        ex_dispatcher = Inr \<lparr>inAction = [se_action ''DONE'']\<rparr>"
proof -
  have f: "isSideEffect' (se_action ''LOADED'') = Some True"
    and u: "isSideEffect' (ui_action ''LOAD'') \<noteq> Some True"
    and v: "isSideEffect' ((ui_action ''LOAD'')\<lparr>isSideEffect' := Some False\<rparr>) \<noteq> Some True"
    by (simp_all add: se_action_def ui_action_def)
  have ne: "(\<lambda>n a. [ui_action ''DONE'']) ((\<lambda>n a. Suc n) (0::nat) (se_action ''LOADED''))
              (se_action ''LOADED'') \<noteq> []"
    by simp
  have tag: "asSideEffect (ui_action ''DONE'') = se_action ''DONE''"
    by (simp add: asSideEffect_def ui_action_def se_action_def)
  have fields: "\<lparr>type' = type' (ui_action ''DONE''), payload' = payload' (ui_action ''DONE''),
      error' = error' (ui_action ''DONE''), isSideEffect' = Some True\<rparr> = se_action ''DONE''"
    by (simp add: ui_action_def se_action_def)
  show ?thesis
    using f u
      seDispatch_nested_guard [of "se_action ''LOADED''" "ui_action ''DONE''" ex_dispatcher
        "\<lambda>n a. [ui_action ''DONE'']" "\<lambda>n a. Suc n" 0]
      seDispatch_nested_guard [of "ui_action ''LOAD''" "ui_action ''DONE''" ex_dispatcher
        "\<lambda>n a. [ui_action ''DONE'']" "\<lambda>n a. Suc n" 0]
      seDispatch_nested_guard [of "(ui_action ''LOAD'')\<lparr>isSideEffect' := Some False\<rparr>"
        "ui_action ''DONE''" ex_dispatcher "\<lambda>n a. [ui_action ''DONE'']" "\<lambda>n a. Suc n" 0]
    by (simp add: v tag fields ex_dispatcher_def)
qed

end
